theory Spec2Isabelle
  imports Main "HOL-Library.Sublist"
begin

text \<open>
  The class \<open>WCAGAltTextGenerator\<close> of \<open>src/alt_text_generator.py\<close>: the role of
  an image (\<open>_determine_image_role\<close>), the text around it
  (\<open>_get_surrounding_text\<close>), the record of an image (\<open>extract_image_info\<close>) and
  the call of the text generator (\<open>generate_alt_text\<close>). The parsed document and the
  client of the generator come from libraries; the document is modelled by the tree
  and the queries the code uses, the client by a function with a state.
\<close>

section \<open>Python strings\<close>

text \<open>
  A Python \<open>str\<close> is modelled as a \<open>string\<close>; a \<open>char\<close> stands for one code point
  below 256, so \<open>length\<close> is Python's \<open>len\<close>. \<open>isspace\<close> lists the code points
  below 256 that \<open>str.strip()\<close> removes.
\<close>

definition isspace :: "char \<Rightarrow> bool" where
  "isspace c = (c \<in> set [CHR 0x09, CHR 0x0A, CHR 0x0B, CHR 0x0C, CHR 0x0D,
                         CHR 0x1C, CHR 0x1D, CHR 0x1E, CHR 0x1F, CHR 0x20,
                         CHR 0x85, CHR 0xA0])"

definition strip :: "string \<Rightarrow> string" where
  "strip s = rev (dropWhile isspace (rev (dropWhile isspace s)))"

text \<open>\<open>sep.join(xs)\<close>\<close>

fun join :: "string \<Rightarrow> string list \<Rightarrow> string" where
  "join sep [] = []"
| "join sep [x] = x"
| "join sep (x # y # ys) = x @ sep @ join sep (y # ys)"

text \<open>\<open>pattern in text\<close> on strings: \<open>pattern\<close> occurs in \<open>text\<close> as a substring.\<close>

fun str_in :: "string \<Rightarrow> string \<Rightarrow> bool" where
  "str_in p [] = (p = [])"
| "str_in p (c # cs) = (prefix p (c # cs) \<or> str_in p cs)"

text \<open>Truthiness of a string and of an optional string (\<open>None\<close> and \<open>''\<close> are false).\<close>

definition truthy :: "string \<Rightarrow> bool" where
  "truthy s = (s \<noteq> [])"

definition truthy_opt :: "string option \<Rightarrow> bool" where
  "truthy_opt v = (case v of None \<Rightarrow> False | Some s \<Rightarrow> truthy s)"

section \<open>The parsed document\<close>

text \<open>
  The tree that \<open>BeautifulSoup(html_content, 'html.parser')\<close> returns (line 145).
  A \<open>NavigableString\<close> is a text node; \<open>Comment\<close> stands for the string subclasses
  (comments, declarations) that \<open>find_previous(string=True)\<close> and
  \<open>find_next(string=True)\<close> match but \<open>get_text\<close> leaves out; both are Python
  strings, and either may be the empty string. A \<open>Tag\<close> has a name, its attribute
  dictionary and its children, and is always true as a condition. The whole document
  is a \<open>Tag\<close> named \<open>[document]\<close>.
\<close>

datatype node =
    NavigableString string
  | Comment string
  | Tag string "(string \<times> string) list" "node list"

text \<open>A page element: the node together with its parents, nearest first.\<close>

type_synonym element = "node \<times> node list"

fun tag_name :: "node \<Rightarrow> string option" where
  "tag_name (Tag n a cs) = Some n"
| "tag_name (NavigableString s) = None"
| "tag_name (Comment s) = None"

fun string_of :: "node \<Rightarrow> string option" where
  "string_of (NavigableString s) = Some s"
| "string_of (Comment s) = Some s"
| "string_of (Tag n a cs) = None"

text \<open>\<open>tag.get(key)\<close> and \<open>tag.get(key, default)\<close>\<close>

fun node_get :: "node \<Rightarrow> string \<Rightarrow> string option" where
  "node_get (Tag n a cs) k = map_of a k"
| "node_get (NavigableString s) k = None"
| "node_get (Comment s) k = None"

definition get :: "element \<Rightarrow> string \<Rightarrow> string option" where
  "get e k = node_get (fst e) k"

definition get_default :: "node \<Rightarrow> string \<Rightarrow> string \<Rightarrow> string" where
  "get_default t k d = (case node_get t k of None \<Rightarrow> d | Some v \<Rightarrow> v)"

text \<open>\<open>tag.find_parent(name)\<close> and \<open>tag.find_parent([names])\<close>: the nearest parent so named.\<close>

definition find_parent :: "string \<Rightarrow> element \<Rightarrow> node option" where
  "find_parent nm e = find (\<lambda>p. tag_name p = Some nm) (snd e)"

definition find_parent_in :: "string list \<Rightarrow> element \<Rightarrow> node option" where
  "find_parent_in nms e =
     find (\<lambda>p. case tag_name p of None \<Rightarrow> False | Some n \<Rightarrow> n \<in> set nms) (snd e)"

text \<open>\<open>tag.descendants\<close>: the nodes below a tag, in document order.\<close>

fun descendants :: "node \<Rightarrow> node list" where
  "descendants (Tag n a cs) = concat (map (\<lambda>c. c # descendants c) cs)"
| "descendants (NavigableString s) = []"
| "descendants (Comment s) = []"

text \<open>\<open>tag.find(name)\<close>: the first descendant tag so named.\<close>

definition tag_find :: "string \<Rightarrow> node \<Rightarrow> node option" where
  "tag_find nm t = find (\<lambda>d. tag_name d = Some nm) (descendants t)"

text \<open>
  \<open>tag.get_text(strip=True)\<close>: the text nodes below the tag, each stripped, the empty
  ones dropped, concatenated.
\<close>

fun text_of :: "node \<Rightarrow> string list" where
  "text_of (NavigableString s) = [s]"
| "text_of (Comment s) = []"
| "text_of (Tag n a cs) = []"

definition get_text_strip :: "node \<Rightarrow> string" where
  "get_text_strip t =
     concat (filter (\<lambda>s. s \<noteq> []) (map strip (concat (map text_of (descendants t)))))"

text \<open>All page elements of a tree in document order, each with its parents.\<close>

fun elements :: "node list \<Rightarrow> node \<Rightarrow> element list" where
  "elements ps (Tag n a cs) =
     (Tag n a cs, ps) # concat (map (elements (Tag n a cs # ps)) cs)"
| "elements ps (NavigableString s) = [(NavigableString s, ps)]"
| "elements ps (Comment s) = [(Comment s, ps)]"

text \<open>
  A page element at its place in the document: \<open>previous_elements\<close> are the elements
  before it, nearest first, \<open>next_elements\<close> the ones after it.
\<close>

record located =
  previous_elements :: "element list"
  element :: element
  next_elements :: "element list"

fun locate :: "string \<Rightarrow> element list \<Rightarrow> element list \<Rightarrow> located list" where
  "locate nm prev [] = []"
| "locate nm prev (e # rest) =
     (if tag_name (fst e) = Some nm
      then [\<lparr>previous_elements = prev, element = e, next_elements = rest\<rparr>]
      else [])
     @ locate nm (e # prev) rest"

text \<open>\<open>soup.find_all(name)\<close>: the descendants of the document so named, in document order.\<close>

definition find_all :: "string \<Rightarrow> node \<Rightarrow> located list" where
  "find_all nm soup =
     (case elements [] soup of [] \<Rightarrow> [] | root # rest \<Rightarrow> locate nm [root] rest)"

text \<open>
  The chain \<open>x.find_previous(string=True)\<close>, \<open>x.find_next(string=True)\<close>: the string
  elements of a list of elements. The search of the library passes over an element
  that is false as a condition, so it never returns the empty string.
\<close>

definition strings :: "element list \<Rightarrow> element list" where
  "strings es =
     filter (\<lambda>e. case string_of (fst e) of None \<Rightarrow> False | Some s \<Rightarrow> truthy s) es"

section \<open>Surrounding text\<close>

text \<open>\<open>_get_surrounding_text\<close>, lines 27 to 91; \<open>is_valid_text\<close> is lines 32 to 69.\<close>

definition code_patterns :: "string list" where
  "code_patterns =
     [''{'', ''}'', ''//'', ''/*'', ''*/'', ''<script'', ''<style'', ''@media'',
      ''function('', ''var '', ''let '', ''const '', ''.css'', ''.js'', ''window.'',
      ''document.'']"

definition unwanted_tags :: "string list" where
  "unwanted_tags = [''script'', ''style'', ''code'', ''noscript'']"

text \<open>The string of a string element (the empty string for a tag, which the walk never meets).\<close>

definition content :: "element \<Rightarrow> string" where
  "content e = (case string_of (fst e) of None \<Rightarrow> [] | Some s \<Rightarrow> s)"

text \<open>\<open>element.parent.name\<close>, \<open>None\<close> for an element without a parent.\<close>

definition parent_name :: "element \<Rightarrow> string option" where
  "parent_name e = (case snd e of [] \<Rightarrow> None | p # ps \<Rightarrow> tag_name p)"

definition is_valid_text :: "element \<Rightarrow> bool" where
  "is_valid_text e =
     (if \<not> truthy (content e) \<or> string_of (fst e) = None then False
      else if (case parent_name e of None \<Rightarrow> False | Some n \<Rightarrow> n \<in> set unwanted_tags)
      then False
      else let text = strip (content e) in
        if \<not> truthy text then False
        else if list_ex (\<lambda>pattern. str_in pattern text) code_patterns then False
        else True)"

text \<open>
  The loop over the text before the image (lines 75 to 79), and the one over the text
  after it (lines 82 to 86). \<open>cs\<close> is the chain of strings that
  \<open>find_previous(string=True)\<close> walks, \<open>current\<close> its head; the chain ending is
  \<open>current\<close> being \<open>None\<close>. The loop test \<open>while current and ...\<close> takes the truth
  value of a string, which is false for the empty string; the chain holds none.
  \<open>insert(0, ...)\<close> puts the new text in front, \<open>append\<close> behind.
\<close>

fun walk_previous :: "int \<Rightarrow> element list \<Rightarrow> string list \<Rightarrow> string list" where
  "walk_previous context_range [] previous_text = previous_text"
| "walk_previous context_range (current # cs) previous_text =
     (if truthy (content current) \<and> int (length (join '' '' previous_text)) < context_range
      then walk_previous context_range cs
             (if is_valid_text current then strip (content current) # previous_text
              else previous_text)
      else previous_text)"

fun walk_next :: "int \<Rightarrow> element list \<Rightarrow> string list \<Rightarrow> string list" where
  "walk_next context_range [] next_text = next_text"
| "walk_next context_range (current # cs) next_text =
     (if truthy (content current) \<and> int (length (join '' '' next_text)) < context_range
      then walk_next context_range cs
             (if is_valid_text current then next_text @ [strip (content current)]
              else next_text)
      else next_text)"

text \<open>The dictionary with the keys \<open>before\<close> and \<open>after\<close>.\<close>

record text_context =
  before_text :: string
  after_text :: string

definition get_surrounding_text :: "located \<Rightarrow> int \<Rightarrow> text_context" where
  "get_surrounding_text img_tag context_range =
     \<lparr>before_text = join '' '' (walk_previous context_range (strings (previous_elements img_tag)) []),
      after_text = join '' '' (walk_next context_range (strings (next_elements img_tag)) [])\<rparr>"

section \<open>The role of an image\<close>

text \<open>
  \<open>_determine_image_role\<close>, lines 93 to 141. The keys \<open>link_text\<close> and \<open>link_url\<close>
  are missing from the dictionary until line 121 stores them. The steps of the
  function are defined one by one: the test of lines 110 to 112
  (\<open>check_decorative\<close>), lines 117 to 122 (\<open>set_functional\<close>), lines 125 to 130
  (\<open>set_caption\<close>), lines 133 to 135 (\<open>set_location\<close>) and lines 138 to 139
  (\<open>set_informative\<close>).
\<close>

record role_info =
  is_decorative :: bool
  is_functional :: bool
  is_informative :: bool
  has_caption :: bool
  in_content :: bool
  in_header :: bool
  in_navigation :: bool
  caption_text :: string
  link_text :: "string option"
  link_url :: "string option"

definition initial_role_info :: role_info where
  "initial_role_info =
     \<lparr>is_decorative = False, is_functional = False, is_informative = False,
      has_caption = False, in_content = False, in_header = False, in_navigation = False,
      caption_text = [], link_text = None, link_url = None\<rparr>"

definition check_decorative :: "element \<Rightarrow> bool" where
  "check_decorative img_tag =
     (get img_tag ''role'' = Some ''presentation'' \<or>
      get img_tag ''aria-hidden'' = Some ''true'' \<or>
      (\<not> truthy_opt (get img_tag ''alt'') \<and> find_parent ''a'' img_tag = None))"

definition set_functional :: "element \<Rightarrow> role_info \<Rightarrow> role_info" where
  "set_functional img_tag r =
     (let parent_link = find_parent ''a'' img_tag in
      if parent_link \<noteq> None \<or> find_parent ''button'' img_tag \<noteq> None
      then (case parent_link of
              None \<Rightarrow> r\<lparr>is_functional := True\<rparr>
            | Some a \<Rightarrow> r\<lparr>is_functional := True,
                          link_text := Some (get_text_strip a),
                          link_url := Some (get_default a ''href'' [])\<rparr>)
      else r)"

definition set_caption :: "element \<Rightarrow> role_info \<Rightarrow> role_info" where
  "set_caption img_tag r =
     (case find_parent ''figure'' img_tag of
        None \<Rightarrow> r
      | Some figure_parent \<Rightarrow>
          (case tag_find ''figcaption'' figure_parent of
             None \<Rightarrow> r
           | Some figcaption \<Rightarrow>
               r\<lparr>has_caption := True, caption_text := get_text_strip figcaption\<rparr>))"

definition set_location :: "element \<Rightarrow> role_info \<Rightarrow> role_info" where
  "set_location img_tag r =
     r\<lparr>in_header := (find_parent ''header'' img_tag \<noteq> None),
       in_navigation := (find_parent ''nav'' img_tag \<noteq> None),
       in_content := (find_parent_in [''article'', ''main'', ''section''] img_tag \<noteq> None)\<rparr>"

definition set_informative :: "role_info \<Rightarrow> role_info" where
  "set_informative r =
     (if \<not> (is_decorative r \<or> is_functional r) then r\<lparr>is_informative := True\<rparr> else r)"

definition determine_image_role :: "element \<Rightarrow> role_info" where
  "determine_image_role img_tag =
     (if check_decorative img_tag then initial_role_info\<lparr>is_decorative := True\<rparr>
      else set_informative
             (set_location img_tag
               (set_caption img_tag
                 (set_functional img_tag initial_role_info))))"

section \<open>Generating the alt text\<close>

text \<open>
  The dictionaries of \<open>extract_image_info\<close>: a key that may be missing is an
  \<open>option\<close>. \<open>image_data\<close> is the dictionary before \<open>suggested_alt\<close> is stored,
  \<open>image_result\<close> the one appended to \<open>images_data\<close>.
\<close>

record link_info =
  link_info_text :: string
  link_info_url :: string

record image_data =
  src :: string
  existing_alt :: string
  role :: string
  context_text :: text_context
  title :: "string option"
  caption :: "string option"
  link :: "link_info option"

record image_result = image_data +
  suggested_alt :: string

text \<open>
  \<open>context_info\<close> (lines 204 to 219), from which the prompt is formatted. The prompt
  is a fixed text around these fields, so the model hands \<open>context_info\<close> itself to
  the client.
\<close>

record context_info =
  ci_role :: string
  ci_existing_alt :: string
  ci_title :: string
  ci_caption :: string
  ci_surrounding_text :: text_context
  ci_link :: "link_info option"

text \<open>
  \<open>self.client.messages.create\<close>: it raises an exception with a message, or returns a
  response whose \<open>content\<close> is a list of text blocks. The client has a state of its
  own, which every call may change.
\<close>

datatype outcome = Raises string | Response "string list"

type_synonym 's client = "'s \<Rightarrow> context_info \<Rightarrow> outcome \<times> 's"

definition error_prefix :: string where
  "error_prefix = ''Error generating alt text: ''"

definition build_context_info :: "role_info \<Rightarrow> image_data \<Rightarrow> context_info" where
  "build_context_info ri d =
     \<lparr>ci_role = (if is_functional ri then ''functional'' else ''informative''),
      ci_existing_alt = existing_alt d,
      ci_title = (case title d of None \<Rightarrow> [] | Some t \<Rightarrow> t),
      ci_caption = caption_text ri,
      ci_surrounding_text =
        \<lparr>before_text = before_text (context_text d),
          after_text = after_text (context_text d)\<rparr>,
      ci_link =
        (if is_functional ri
         then Some \<lparr>link_info_text = (case link_text ri of None \<Rightarrow> [] | Some t \<Rightarrow> t),
                    link_info_url = (case link_url ri of None \<Rightarrow> [] | Some u \<Rightarrow> u)\<rparr>
         else None)\<rparr>"

text \<open>
  \<open>generate_alt_text(image_data_for_generation)\<close>, lines 196 to 255, where \<open>ri\<close> is
  the dictionary under the key \<open>role\<close> and \<open>d\<close> holds the other keys. Whatever is
  raised inside the \<open>try\<close> is caught by \<open>except Exception\<close>; \<open>content[0]\<close> of an
  empty list raises there too.
\<close>

definition generate_alt_text :: "'s client \<Rightarrow> role_info \<Rightarrow> image_data \<Rightarrow> 's \<Rightarrow> string \<times> 's" where
  "generate_alt_text create ri d s =
     (if is_decorative ri then ([], s)
      else
        (case create s (build_context_info ri d) of
           (Raises e, s') \<Rightarrow> (error_prefix @ e, s')
         | (Response [], s') \<Rightarrow> (error_prefix @ ''list index out of range'', s')
         | (Response (block # blocks), s') \<Rightarrow> (strip block, s')))"

section \<open>Assembling the records\<close>

text \<open>
  \<open>extract_image_info\<close>, lines 143 to 186: the value under \<open>role\<close> (lines 156 to
  158), the dictionary \<open>image_data\<close> with its optional keys (lines 153 to 176), and
  the loop over \<open>soup.find_all('img')\<close>, which threads the state of the client.
\<close>

definition role_name :: "role_info \<Rightarrow> string" where
  "role_name ri =
     (if is_decorative ri then ''decorative''
      else if is_functional ri then ''functional''
      else ''informative'')"

definition build_image_data :: "located \<Rightarrow> role_info \<Rightarrow> image_data" where
  "build_image_data img ri =
     (let t = strip (get_default (fst (element img)) ''title'' []) in
      \<lparr>src = get_default (fst (element img)) ''src'' [],
       existing_alt = get_default (fst (element img)) ''alt'' [],
       role = role_name ri,
       context_text = get_surrounding_text img 100,
       title = (if truthy t then Some t else None),
       caption = (if truthy (strip (caption_text ri)) then Some (caption_text ri) else None),
       link =
         (if is_functional ri
          then (case link_text ri of
                  None \<Rightarrow> None
                | Some t \<Rightarrow>
                    if truthy (strip t)
                    then Some \<lparr>link_info_text = t,
                               link_info_url = (case link_url ri of None \<Rightarrow> [] | Some u \<Rightarrow> u)\<rparr>
                    else None)
          else None)\<rparr>)"

text \<open>One pass of the loop body of \<open>extract_image_info\<close>.\<close>

definition image_record :: "'s client \<Rightarrow> located \<Rightarrow> 's \<Rightarrow> image_result \<times> 's" where
  "image_record create img s =
     (let ri = determine_image_role (element img);
          d = build_image_data img ri;
          (alt, s') = generate_alt_text create ri d s
      in (image_data.extend d \<lparr>suggested_alt = alt\<rparr>, s'))"

fun extract_images :: "'s client \<Rightarrow> located list \<Rightarrow> 's \<Rightarrow> image_result list \<times> 's" where
  "extract_images create [] s = ([], s)"
| "extract_images create (img # imgs) s =
     (let (r, s') = image_record create img s;
          (rs, s'') = extract_images create imgs s'
      in (r # rs, s''))"

definition extract_image_info :: "'s client \<Rightarrow> node \<Rightarrow> 's \<Rightarrow> image_result list \<times> 's" where
  "extract_image_info create soup s = extract_images create (find_all ''img'' soup) s"

section \<open>Recording the calls of the client\<close>

text \<open>
  A client that also keeps the list of the \<open>context_info\<close> values it was called with,
  oldest first. It answers as the given client does.
\<close>

definition logging :: "'s client \<Rightarrow> ('s \<times> context_info list) client" where
  "logging create =
     (\<lambda>(s, calls) ci. case create s ci of (out, s') \<Rightarrow> (out, (s', calls @ [ci])))"

text \<open>The \<open>context_info\<close> that \<open>generate_alt_text\<close> builds for an image of the document.\<close>

definition image_context_info :: "located \<Rightarrow> context_info" where
  "image_context_info img =
     build_context_info (determine_image_role (element img))
       (build_image_data img (determine_image_role (element img)))"

section \<open>Example documents\<close>

text \<open>
  \<^verbatim>\<open><a href="/home"><img src="logo.png" alt="Logo" aria-hidden="true"></a>\<close>
  \<^verbatim>\<open><figure><img src="rule.png"><figcaption>A rule</figcaption></figure>\<close>
\<close>

definition decorative_page :: node where
  "decorative_page = Tag ''[document]'' []
     [Tag ''a'' [(''href'', ''/home'')]
        [Tag ''img'' [(''src'', ''logo.png''), (''alt'', ''Logo''), (''aria-hidden'', ''true'')] []],
      Tag ''figure'' []
        [Tag ''img'' [(''src'', ''rule.png'')] [],
         Tag ''figcaption'' [] [NavigableString ''A rule'']]]"

text \<open>\<^verbatim>\<open><a href="/home"><img src="logo.png" alt=""> Home </a>\<close>\<close>

definition linked_page :: node where
  "linked_page = Tag ''[document]'' []
     [Tag ''a'' [(''href'', ''/home'')]
        [Tag ''img'' [(''src'', ''logo.png''), (''alt'', [])] [], NavigableString '' Home '']]"

text \<open>\<^verbatim>\<open><p><img src="dot.png" alt=" "></p>\<close>\<close>

definition blank_alt_page :: node where
  "blank_alt_page = Tag ''[document]'' []
     [Tag ''p'' [] [Tag ''img'' [(''src'', ''dot.png''), (''alt'', '' '')] []]]"

text \<open>The \<open>i\<close>-th image of a document, as \<open>soup.find_all('img')\<close> yields it.\<close>

definition nth_img :: "node \<Rightarrow> nat \<Rightarrow> located" where
  "nth_img soup i = find_all ''img'' soup ! i"

text \<open>Three text nodes inside a paragraph.\<close>

definition css_fragment :: element where
  "css_fragment =
     (NavigableString ''margin: 10px; /* comment */'',
      [Tag ''p'' [] [NavigableString ''margin: 10px; /* comment */'']])"

definition prose_fragment :: element where
  "prose_fragment =
     (NavigableString '' Welcome to the site '',
      [Tag ''p'' [] [NavigableString '' Welcome to the site '']])"

definition trailing_let_fragment :: element where
  "trailing_let_fragment =
     (NavigableString ''we let '', [Tag ''p'' [] [NavigableString ''we let '']])"

text \<open>\<^verbatim>\<open><a href="/next"><img src="arrow.png" alt="Next"> </a>\<close>\<close>

definition whitespace_link_page :: node where
  "whitespace_link_page = Tag ''[document]'' []
     [Tag ''a'' [(''href'', ''/next'')]
        [Tag ''img'' [(''src'', ''arrow.png''), (''alt'', ''Next'')] [], NavigableString '' '']]"

text \<open>
  \<^verbatim>\<open><a href="/cats"><figure><img src="cat.png" alt="A cat" title=" Tom ">\<close>
  \<^verbatim>\<open><figcaption> Tom, asleep </figcaption></figure></a>\<close>
\<close>

definition full_page :: node where
  "full_page = Tag ''[document]'' []
     [Tag ''a'' [(''href'', ''/cats'')]
        [Tag ''figure'' []
           [Tag ''img'' [(''src'', ''cat.png''), (''alt'', ''A cat''), (''title'', '' Tom '')] [],
            Tag ''figcaption'' [] [NavigableString '' Tom, asleep '']]]]"

text \<open>\<^verbatim>\<open><img src="rule.png"><img src="team.png" alt="Team">\<close>\<close>

definition mixed_page :: node where
  "mixed_page = Tag ''[document]'' []
     [Tag ''img'' [(''src'', ''rule.png'')] [],
      Tag ''img'' [(''src'', ''team.png''), (''alt'', ''Team'')] []]"

text \<open>\<^verbatim>\<open><img src="a.png" alt="A"><img src="b.png" alt="B">\<close>\<close>

definition two_photos_page :: node where
  "two_photos_page = Tag ''[document]'' []
     [Tag ''img'' [(''src'', ''a.png''), (''alt'', ''A'')] [],
      Tag ''img'' [(''src'', ''b.png''), (''alt'', ''B'')] []]"

text \<open>A client that fails on its first call and answers afterwards; its state counts the calls.\<close>

definition flaky_client :: "nat client" where
  "flaky_client s ci = (if s = 0 then Raises ''timeout'' else Response ['' A photo ''], Suc s)"

text \<open>
  \<^verbatim>\<open><figure><img src="cat.png" alt="A cat"><figcaption>  </figcaption></figure>\<close>
\<close>

definition empty_caption_page :: node where
  "empty_caption_page = Tag ''[document]'' []
     [Tag ''figure'' []
        [Tag ''img'' [(''src'', ''cat.png''), (''alt'', ''A cat'')] [],
         Tag ''figcaption'' [] [NavigableString ''  '']]]"

text \<open>Three fragments of forty characters each.\<close>

definition fragment1 :: string where
  "fragment1 = ''Forty characters of plain text are here.''"

definition fragment2 :: string where
  "fragment2 = ''Another forty characters of prose, okay.''"

definition fragment3 :: string where
  "fragment3 = ''The third fragment is forty chars long..''"

text \<open>
  \<^verbatim>\<open><p>Forty ...</p><p>Another ...</p><p>The third ...</p><img src="x.png" alt="X">\<close>
\<close>

definition three_fragments_page :: node where
  "three_fragments_page = Tag ''[document]'' []
     [Tag ''p'' [] [NavigableString fragment1],
      Tag ''p'' [] [NavigableString fragment2],
      Tag ''p'' [] [NavigableString fragment3],
      Tag ''img'' [(''src'', ''x.png''), (''alt'', ''X'')] []]"

text \<open>
  The same with an empty comment inside a \<open>pre\<close> just before the image:
  \<^verbatim>\<open><p>Forty ...</p><p>Another ...</p><p>The third ...</p><pre><!----></pre>\<close>
  \<^verbatim>\<open><img src="x.png" alt="X">\<close>
\<close>

definition empty_comment_page :: node where
  "empty_comment_page = Tag ''[document]'' []
     [Tag ''p'' [] [NavigableString fragment1],
      Tag ''p'' [] [NavigableString fragment2],
      Tag ''p'' [] [NavigableString fragment3],
      Tag ''pre'' [] [Comment []],
      Tag ''img'' [(''src'', ''x.png''), (''alt'', ''X'')] []]"

section \<open>The role classifier\<close>

lemma truthy_opt_iff: "truthy_opt v = (v \<noteq> None \<and> v \<noteq> Some [])"
  by (simp add: truthy_opt_def truthy_def split: option.splits)

lemma set_informative_flags:
  "is_decorative (set_informative r) = is_decorative r"
  "is_functional (set_informative r) = is_functional r"
  "is_informative (set_informative r) =
     (is_informative r \<or> \<not> (is_decorative r \<or> is_functional r))"
  by (simp_all add: set_informative_def)

lemma set_location_flags:
  "is_decorative (set_location e r) = is_decorative r"
  "is_functional (set_location e r) = is_functional r"
  "is_informative (set_location e r) = is_informative r"
  by (simp_all add: set_location_def)

lemma set_caption_flags:
  "is_decorative (set_caption e r) = is_decorative r"
  "is_functional (set_caption e r) = is_functional r"
  "is_informative (set_caption e r) = is_informative r"
  by (simp_all add: set_caption_def split: option.splits)

lemma set_functional_flags:
  "is_decorative (set_functional e r) = is_decorative r"
  "is_functional (set_functional e r) =
     (is_functional r \<or> find_parent ''a'' e \<noteq> None \<or> find_parent ''button'' e \<noteq> None)"
  "is_informative (set_functional e r) = is_informative r"
  by (auto simp add: set_functional_def Let_def split: option.splits)

lemmas flag_simps =
  set_informative_flags set_location_flags set_caption_flags set_functional_flags

text \<open>The three flags of the result, read off the two branches of the function.\<close>

lemma determine_flags:
  "is_decorative (determine_image_role e) = check_decorative e"
  "is_functional (determine_image_role e) =
     (\<not> check_decorative e \<and>
      (find_parent ''a'' e \<noteq> None \<or> find_parent ''button'' e \<noteq> None))"
  "is_informative (determine_image_role e) =
     (\<not> check_decorative e \<and> find_parent ''a'' e = None \<and> find_parent ''button'' e = None)"
  by (auto simp add: determine_image_role_def flag_simps initial_role_info_def)

lemmas eval_simps =
  find_all_def nth_img_def get_def find_parent_def find_parent_in_def tag_find_def
  get_text_strip_def get_default_def truthy_opt_def truthy_def strip_def isspace_def

text \<open>
  C1. For every image node the result of \<open>determine_image_role\<close> has exactly one of
  \<open>is_decorative\<close>, \<open>is_functional\<close>, \<open>is_informative\<close> set, and \<open>is_informative\<close>
  is set iff neither of the other two is.
\<close>

theorem exactly_one_role:
  "((is_decorative (determine_image_role img_tag) \<and>
       \<not> is_functional (determine_image_role img_tag) \<and>
       \<not> is_informative (determine_image_role img_tag)) \<or>
    (\<not> is_decorative (determine_image_role img_tag) \<and>
       is_functional (determine_image_role img_tag) \<and>
       \<not> is_informative (determine_image_role img_tag)) \<or>
    (\<not> is_decorative (determine_image_role img_tag) \<and>
       \<not> is_functional (determine_image_role img_tag) \<and>
       is_informative (determine_image_role img_tag))) \<and>
   (is_informative (determine_image_role img_tag) \<longleftrightarrow>
      \<not> is_decorative (determine_image_role img_tag) \<and>
      \<not> is_functional (determine_image_role img_tag))"
  by (auto simp add: determine_flags)

theorem exactly_one_role_witness:
  "\<not> is_decorative (determine_image_role (element (nth_img linked_page 0))) \<and>
   is_functional (determine_image_role (element (nth_img linked_page 0))) \<and>
   \<not> is_informative (determine_image_role (element (nth_img linked_page 0)))"
  using exactly_one_role [of "element (nth_img linked_page 0)"]
  by (simp add: linked_page_def determine_flags check_decorative_def eval_simps)

text \<open>
  C2. An image is decorative iff its \<open>role\<close> attribute is \<open>presentation\<close>, or its
  \<open>aria-hidden\<close> attribute is \<open>true\<close>, or its \<open>alt\<close> attribute is empty or absent and
  it has no enclosing anchor. So \<open>aria-hidden="true"\<close> makes an image decorative
  whatever its other attributes and parents are, and an image with an empty \<open>alt\<close>
  inside an anchor (and neither of the two attributes) is not decorative: it goes on
  to the functional check, which the anchor passes.
\<close>

theorem decorative_iff:
  "(is_decorative (determine_image_role img_tag) \<longleftrightarrow>
      get img_tag ''role'' = Some ''presentation'' \<or>
      get img_tag ''aria-hidden'' = Some ''true'' \<or>
      ((get img_tag ''alt'' = None \<or> get img_tag ''alt'' = Some [])
         \<and> find_parent ''a'' img_tag = None)) \<and>
   (get img_tag ''aria-hidden'' = Some ''true'' \<longrightarrow>
      is_decorative (determine_image_role img_tag)) \<and>
   ((get img_tag ''alt'' = None \<or> get img_tag ''alt'' = Some []) \<and>
    find_parent ''a'' img_tag \<noteq> None \<and>
    get img_tag ''role'' \<noteq> Some ''presentation'' \<and>
    get img_tag ''aria-hidden'' \<noteq> Some ''true'' \<longrightarrow>
      \<not> is_decorative (determine_image_role img_tag) \<and>
      is_functional (determine_image_role img_tag))"
  by (auto simp add: determine_flags check_decorative_def truthy_opt_iff)

theorem decorative_iff_witness:
  "(get (element (nth_img decorative_page 0)) ''aria-hidden'' = Some ''true'' \<and>
    get (element (nth_img decorative_page 0)) ''alt'' = Some ''Logo'' \<and>
    find_parent ''a'' (element (nth_img decorative_page 0)) \<noteq> None \<and>
    is_decorative (determine_image_role (element (nth_img decorative_page 0)))) \<and>
   (get (element (nth_img linked_page 0)) ''alt'' = Some [] \<and>
    find_parent ''a'' (element (nth_img linked_page 0)) \<noteq> None \<and>
    get (element (nth_img linked_page 0)) ''role'' \<noteq> Some ''presentation'' \<and>
    get (element (nth_img linked_page 0)) ''aria-hidden'' \<noteq> Some ''true'' \<and>
    \<not> is_decorative (determine_image_role (element (nth_img linked_page 0))) \<and>
    is_functional (determine_image_role (element (nth_img linked_page 0))))"
  using decorative_iff [of "element (nth_img decorative_page 0)"]
    decorative_iff [of "element (nth_img linked_page 0)"]
  by (simp add: decorative_page_def linked_page_def eval_simps)

text \<open>
  C8. When an image is decorative the result is the initial dictionary with only
  \<open>is_decorative\<close> set: no caption, no location flag, no \<open>link_text\<close> or \<open>link_url\<close> key.
\<close>

theorem decorative_stops:
  "is_decorative (determine_image_role img_tag) \<Longrightarrow>
   determine_image_role img_tag =
     \<lparr>is_decorative = True, is_functional = False, is_informative = False,
      has_caption = False, in_content = False, in_header = False, in_navigation = False,
      caption_text = [], link_text = None, link_url = None\<rparr>"
  by (simp add: determine_flags)
    (simp add: determine_image_role_def initial_role_info_def)

theorem decorative_stops_witness:
  "is_decorative (determine_image_role (element (nth_img decorative_page 1))) \<and>
   find_parent ''figure'' (element (nth_img decorative_page 1)) \<noteq> None \<and>
   determine_image_role (element (nth_img decorative_page 1)) =
     \<lparr>is_decorative = True, is_functional = False, is_informative = False,
      has_caption = False, in_content = False, in_header = False, in_navigation = False,
      caption_text = [], link_text = None, link_url = None\<rparr>"
proof -
  have d: "is_decorative (determine_image_role (element (nth_img decorative_page 1)))"
    by (simp add: decorative_page_def determine_flags check_decorative_def eval_simps)
  have f: "find_parent ''figure'' (element (nth_img decorative_page 1)) \<noteq> None"
    by (simp add: decorative_page_def eval_simps)
  from d f decorative_stops [OF d] show ?thesis by simp
qed

text \<open>
  C10. An \<open>alt\<close> attribute that is not the empty string but only whitespace counts as
  present: with \<open>role\<close> other than \<open>presentation\<close> and \<open>aria-hidden\<close> other than
  \<open>true\<close> the image is not decorative, and with no enclosing anchor or button it is
  informative.
\<close>

theorem whitespace_alt_is_present:
  "get img_tag ''role'' \<noteq> Some ''presentation'' \<Longrightarrow>
   get img_tag ''aria-hidden'' \<noteq> Some ''true'' \<Longrightarrow>
   get img_tag ''alt'' = Some v \<Longrightarrow> v \<noteq> [] \<Longrightarrow> strip v = [] \<Longrightarrow>
   \<not> is_decorative (determine_image_role img_tag) \<and>
   (find_parent ''a'' img_tag = None \<and> find_parent ''button'' img_tag = None \<longrightarrow>
      is_informative (determine_image_role img_tag) \<and>
      \<not> is_functional (determine_image_role img_tag))"
  by (simp add: determine_flags check_decorative_def truthy_opt_iff)

theorem whitespace_alt_is_present_witness:
  "get (element (nth_img blank_alt_page 0)) ''alt'' = Some '' '' \<and>
   strip '' '' = [] \<and>
   find_parent ''a'' (element (nth_img blank_alt_page 0)) = None \<and>
   find_parent ''button'' (element (nth_img blank_alt_page 0)) = None \<and>
   \<not> is_decorative (determine_image_role (element (nth_img blank_alt_page 0))) \<and>
   is_informative (determine_image_role (element (nth_img blank_alt_page 0))) \<and>
   \<not> is_functional (determine_image_role (element (nth_img blank_alt_page 0)))"
proof -
  have r: "get (element (nth_img blank_alt_page 0)) ''role'' \<noteq> Some ''presentation''"
    and h: "get (element (nth_img blank_alt_page 0)) ''aria-hidden'' \<noteq> Some ''true''"
    and a: "get (element (nth_img blank_alt_page 0)) ''alt'' = Some '' ''"
    and p: "find_parent ''a'' (element (nth_img blank_alt_page 0)) = None"
           "find_parent ''button'' (element (nth_img blank_alt_page 0)) = None"
    by (simp_all add: blank_alt_page_def eval_simps)
  have s: "strip '' '' = []"
    by (simp add: strip_def isspace_def)
  from whitespace_alt_is_present [OF r h a _ s] a s p show ?thesis by simp
qed

section \<open>The filter on text\<close>

lemma str_in_sublist: "str_in p t = sublist p t"
proof (induction t)
  case Nil
  then show ?case by simp
next
  case (Cons c cs)
  then show ?case by (cases p) (auto simp add: sublist_Cons_right)
qed

lemma strip_Nil [simp]: "strip [] = []"
  by (simp add: strip_def)

lemma strip_empty_iff: "strip s = [] \<longleftrightarrow> (\<forall>c\<in>set s. isspace c)"
proof
  assume "strip s = []"
  then have "\<forall>c\<in>set (dropWhile isspace s). isspace c"
    by (simp add: strip_def dropWhile_eq_Nil_conv)
  then have "dropWhile isspace s = []"
    using hd_dropWhile [of isspace s] by (cases "dropWhile isspace s") auto
  then show "\<forall>c\<in>set s. isspace c"
    by (simp add: dropWhile_eq_Nil_conv)
next
  assume "\<forall>c\<in>set s. isspace c"
  then show "strip s = []"
    by (auto simp add: strip_def dest: set_dropWhileD)
qed

lemma is_valid_text_iff:
  "is_valid_text e \<longleftrightarrow>
     string_of (fst e) \<noteq> None \<and>
     strip (content e) \<noteq> [] \<and>
     parent_name e \<notin> Some ` set unwanted_tags \<and>
     \<not> (\<exists>p\<in>set code_patterns. sublist p (strip (content e)))"
  apply (cases "content e = []")
   apply (simp add: is_valid_text_def truthy_def)
  apply (auto simp add: is_valid_text_def truthy_def Let_def list_ex_iff str_in_sublist
      split: option.splits)
  done

lemmas filter_simps =
  is_valid_text_def content_def parent_name_def truthy_def strip_def isspace_def
  code_patterns_def unwanted_tags_def Let_def

text \<open>
  C4. A text fragment \<open>s\<close> is excluded from the context iff it is empty after
  trimming, or its parent is a \<open>script\<close>, \<open>style\<close>, \<open>code\<close> or \<open>noscript\<close> tag, or
  its trimmed content contains one of the sixteen listed substrings. The content
  searched is the trimmed one, as in the specification's sentence.
\<close>

theorem excluded_iff:
  "string_of (fst e) = Some s \<Longrightarrow>
   (\<not> is_valid_text e \<longleftrightarrow>
      strip s = [] \<or>
      parent_name e \<in> {Some ''script'', Some ''style'', Some ''code'', Some ''noscript''} \<or>
      (\<exists>p \<in> {''{'', ''}'', ''//'', ''/*'', ''*/'', ''<script'', ''<style'', ''@media'',
              ''function('', ''var '', ''let '', ''const '', ''.css'', ''.js'', ''window.'',
              ''document.''}. sublist p (strip s)))"
  by (simp add: is_valid_text_iff content_def code_patterns_def unwanted_tags_def)

theorem excluded_iff_witness:
  "string_of (fst css_fragment) = Some ''margin: 10px; /* comment */'' \<and>
   \<not> is_valid_text css_fragment \<and>
   string_of (fst prose_fragment) = Some '' Welcome to the site '' \<and>
   is_valid_text prose_fragment \<and>
   string_of (fst trailing_let_fragment) = Some ''we let '' \<and>
   is_valid_text trailing_let_fragment"
  using excluded_iff [of css_fragment "''margin: 10px; /* comment */''"]
    excluded_iff [of prose_fragment "'' Welcome to the site ''"]
    excluded_iff [of trailing_let_fragment "''we let ''"]
  by (simp add: css_fragment_def prose_fragment_def trailing_let_fragment_def filter_simps)

section \<open>The records\<close>

lemma extend_fields [simp]:
  "src (image_data.extend d \<lparr>suggested_alt = a\<rparr>) = src d"
  "existing_alt (image_data.extend d \<lparr>suggested_alt = a\<rparr>) = existing_alt d"
  "role (image_data.extend d \<lparr>suggested_alt = a\<rparr>) = role d"
  "context_text (image_data.extend d \<lparr>suggested_alt = a\<rparr>) = context_text d"
  "title (image_data.extend d \<lparr>suggested_alt = a\<rparr>) = title d"
  "caption (image_data.extend d \<lparr>suggested_alt = a\<rparr>) = caption d"
  "link (image_data.extend d \<lparr>suggested_alt = a\<rparr>) = link d"
  "suggested_alt (image_data.extend d \<lparr>suggested_alt = a\<rparr>) = a"
  by (simp_all add: image_data.extend_def)

lemma image_record_eq:
  "image_record create img s =
     (image_data.extend (build_image_data img (determine_image_role (element img)))
        \<lparr>suggested_alt =
           fst (generate_alt_text create (determine_image_role (element img))
                  (build_image_data img (determine_image_role (element img))) s)\<rparr>,
      snd (generate_alt_text create (determine_image_role (element img))
                  (build_image_data img (determine_image_role (element img))) s))"
  by (simp add: image_record_def Let_def split: prod.splits)

lemma extract_images_Cons:
  "extract_images create (img # imgs) s =
     (fst (image_record create img s)
        # fst (extract_images create imgs (snd (image_record create img s))),
      snd (extract_images create imgs (snd (image_record create img s))))"
  by (simp add: Let_def split: prod.splits)

lemma extract_images_length: "length (fst (extract_images create imgs s)) = length imgs"
  by (induction imgs arbitrary: s) (simp_all add: extract_images_Cons del: extract_images.simps(2))

lemma extract_images_nth:
  "i < length imgs \<Longrightarrow>
   \<exists>alt. fst (extract_images create imgs s) ! i =
     image_data.extend (build_image_data (imgs ! i) (determine_image_role (element (imgs ! i))))
       \<lparr>suggested_alt = alt\<rparr>"
proof (induction imgs arbitrary: i s)
  case Nil
  then show ?case by simp
next
  case (Cons img imgs)
  show ?case
  proof (cases i)
    case 0
    then show ?thesis
      by (simp add: extract_images_Cons image_record_eq del: extract_images.simps(2)) blast
  next
    case (Suc j)
    with Cons.prems have "j < length imgs" by simp
    from Cons.IH [OF this] Suc show ?thesis
      by (simp add: extract_images_Cons del: extract_images.simps(2))
  qed
qed

lemma determine_link:
  "link_text (determine_image_role e) =
     (if check_decorative e then None else map_option get_text_strip (find_parent ''a'' e))"
  "link_url (determine_image_role e) =
     (if check_decorative e then None
      else map_option (\<lambda>a. get_default a ''href'' []) (find_parent ''a'' e))"
  by (auto simp add: determine_image_role_def initial_role_info_def set_informative_def
      set_location_def set_caption_def set_functional_def Let_def split: option.splits)

lemma determine_caption:
  "has_caption (determine_image_role e) =
     (\<not> check_decorative e \<and>
      (\<exists>fig cap. find_parent ''figure'' e = Some fig \<and> tag_find ''figcaption'' fig = Some cap))"
  "caption_text (determine_image_role e) =
     (if check_decorative e then []
      else case find_parent ''figure'' e of
             None \<Rightarrow> []
           | Some fig \<Rightarrow>
               (case tag_find ''figcaption'' fig of None \<Rightarrow> [] | Some cap \<Rightarrow> get_text_strip cap))"
  by (auto simp add: determine_image_role_def initial_role_info_def set_informative_def
      set_location_def set_caption_def set_functional_def Let_def split: option.splits)

lemma build_title:
  "title (build_image_data img ri) =
     (if strip (get_default (fst (element img)) ''title'' []) = [] then None
      else Some (strip (get_default (fst (element img)) ''title'' [])))"
  by (simp add: build_image_data_def Let_def truthy_def)

lemma build_caption:
  "caption (build_image_data img ri) =
     (if strip (caption_text ri) = [] then None else Some (caption_text ri))"
  by (simp add: build_image_data_def Let_def truthy_def)

lemma build_link:
  "link (build_image_data img ri) =
     (case link_text ri of
        None \<Rightarrow> None
      | Some t \<Rightarrow>
          if is_functional ri \<and> strip t \<noteq> []
          then Some \<lparr>link_info_text = t,
                     link_info_url = (case link_url ri of None \<Rightarrow> [] | Some u \<Rightarrow> u)\<rparr>
          else None)"
  by (simp add: build_image_data_def Let_def truthy_def split: option.splits)

text \<open>
  C6. In the record of every image the keys \<open>title\<close>, \<open>caption\<close> and \<open>link\<close> are
  missing rather than empty: \<open>title\<close> is there iff the trimmed \<open>title\<close> attribute is
  not empty (and holds it), \<open>caption\<close> iff the trimmed caption text is not empty,
  \<open>link\<close> iff the image is functional and the trimmed text of the enclosing anchor
  is not empty; a key that is there never holds the empty string.
\<close>

theorem optional_fields:
  assumes "i < length (find_all ''img'' soup)"
  shows
    "let img = find_all ''img'' soup ! i;
         r = fst (extract_image_info create soup s) ! i;
         ri = determine_image_role (element img);
         t = get_default (fst (element img)) ''title'' []
     in title r = (if strip t = [] then None else Some (strip t)) \<and>
        title r \<noteq> Some [] \<and>
        caption r = (if strip (caption_text ri) = [] then None else Some (caption_text ri)) \<and>
        caption r \<noteq> Some [] \<and>
        (link r \<noteq> None \<longleftrightarrow>
           is_functional ri \<and>
           (\<exists>a. find_parent ''a'' (element img) = Some a \<and> strip (get_text_strip a) \<noteq> [])) \<and>
        (\<forall>l. link r = Some l \<longrightarrow> link_info_text l \<noteq> [])"
proof -
  obtain alt where r:
    "fst (extract_image_info create soup s) ! i =
       image_data.extend
         (build_image_data (find_all ''img'' soup ! i)
            (determine_image_role (element (find_all ''img'' soup ! i))))
         \<lparr>suggested_alt = alt\<rparr>"
    using extract_images_nth [OF assms, of create s] unfolding extract_image_info_def by blast
  show ?thesis
    unfolding Let_def r
    by (auto simp add: build_title build_caption build_link determine_link determine_flags
        split: option.splits if_splits)
qed



lemma extract_images_nth_state:
  "i < length imgs \<Longrightarrow>
   fst (extract_images create imgs s) ! i =
     fst (image_record create (imgs ! i) (snd (extract_images create (take i imgs) s)))"
proof (induction imgs arbitrary: i s)
  case Nil
  then show ?case by simp
next
  case (Cons img imgs)
  show ?case
  proof (cases i)
    case 0
    then show ?thesis
      by (simp add: extract_images_Cons del: extract_images.simps(2))
  next
    case (Suc j)
    with Cons.prems have "j < length imgs" by simp
    from Cons.IH [OF this] Suc show ?thesis
      by (simp add: extract_images_Cons del: extract_images.simps(2))
  qed
qed

lemma generate_decorative:
  "is_decorative ri \<Longrightarrow> generate_alt_text create ri d s = ([], s)"
  by (simp add: generate_alt_text_def)

lemma generate_raises:
  "\<not> is_decorative ri \<Longrightarrow> fst (create s (build_context_info ri d)) = Raises e \<Longrightarrow>
   fst (generate_alt_text create ri d s) = error_prefix @ e"
  by (cases "create s (build_context_info ri d)") (simp add: generate_alt_text_def)

lemma generate_logging:
  "snd (generate_alt_text (logging create) ri d (s, calls)) =
     (snd (generate_alt_text create ri d s),
      if is_decorative ri then calls else calls @ [build_context_info ri d])"
  by (simp add: generate_alt_text_def logging_def split: prod.splits outcome.splits list.splits)

lemma extract_images_calls:
  "snd (snd (extract_images (logging create) imgs (s, calls))) =
     calls @ map image_context_info
       (filter (\<lambda>img. \<not> is_decorative (determine_image_role (element img))) imgs)"
proof (induction imgs arbitrary: s calls)
  case Nil
  then show ?case by simp
next
  case (Cons img imgs)
  show ?case
    by (simp add: extract_images_Cons image_record_eq generate_logging Cons.IH
        image_context_info_def del: extract_images.simps(2))
qed

lemma role_name_decorative: "role_name ri = ''decorative'' \<longleftrightarrow> is_decorative ri"
  by (simp add: role_name_def)

lemma build_role: "role (build_image_data img ri) = role_name ri"
  by (simp add: build_image_data_def Let_def)

lemma build_src:
  "src (build_image_data img ri) = get_default (fst (element img)) ''src'' []"
  by (simp add: build_image_data_def Let_def)

theorem optional_fields_witness:
  "(0 < length (find_all ''img'' whitespace_link_page) \<and>
    is_functional (determine_image_role (element (find_all ''img'' whitespace_link_page ! 0))) \<and>
    title (fst (extract_image_info flaky_client whitespace_link_page 0) ! 0) = None \<and>
    caption (fst (extract_image_info flaky_client whitespace_link_page 0) ! 0) = None \<and>
    link (fst (extract_image_info flaky_client whitespace_link_page 0) ! 0) = None) \<and>
   (0 < length (find_all ''img'' full_page) \<and>
    title (fst (extract_image_info flaky_client full_page 0) ! 0) = Some ''Tom'' \<and>
    caption (fst (extract_image_info flaky_client full_page 0) ! 0) = Some ''Tom, asleep'' \<and>
    link (fst (extract_image_info flaky_client full_page 0) ! 0) =
      Some \<lparr>link_info_text = ''Tom, asleep'', link_info_url = ''/cats''\<rparr>)"
proof -
  have a: "0 < length (find_all ''img'' whitespace_link_page)"
    and b: "0 < length (find_all ''img'' full_page)"
    by (simp_all add: whitespace_link_page_def full_page_def eval_simps)
  have f: "is_functional
             (determine_image_role (element (find_all ''img'' whitespace_link_page ! 0)))"
    by (simp add: whitespace_link_page_def determine_flags check_decorative_def eval_simps)
  have w:
    "title (fst (extract_image_info flaky_client whitespace_link_page 0) ! 0) = None"
    "caption (fst (extract_image_info flaky_client whitespace_link_page 0) ! 0) = None"
    "link (fst (extract_image_info flaky_client whitespace_link_page 0) ! 0) = None"
    by code_simp+
  have p:
    "title (fst (extract_image_info flaky_client full_page 0) ! 0) = Some ''Tom''"
    "caption (fst (extract_image_info flaky_client full_page 0) ! 0) = Some ''Tom, asleep''"
    "link (fst (extract_image_info flaky_client full_page 0) ! 0) =
       Some \<lparr>link_info_text = ''Tom, asleep'', link_info_url = ''/cats''\<rparr>"
    by code_simp+
  from optional_fields [OF a, of flaky_client 0] optional_fields [OF b, of flaky_client 0]
    a b f w p
  show ?thesis by simp
qed

text \<open>
  C7. For an image classified decorative the record has the role \<open>decorative\<close> and
  the suggested alt text \<open>''\<close>, the pass over it leaves the state of the client as
  it was, and over a whole document the client is called once for each image that is
  not decorative, in order, and for no other.
\<close>

theorem decorative_never_generated:
  assumes "i < length (find_all ''img'' soup)"
    and "is_decorative (determine_image_role (element (find_all ''img'' soup ! i)))"
  shows
    "role (fst (extract_image_info create soup s) ! i) = ''decorative'' \<and>
     suggested_alt (fst (extract_image_info create soup s) ! i) = [] \<and>
     snd (image_record create (find_all ''img'' soup ! i) s') = s' \<and>
     snd (snd (extract_image_info (logging create) soup (s, []))) =
       map image_context_info
         (filter (\<lambda>img. \<not> is_decorative (determine_image_role (element img)))
            (find_all ''img'' soup))"
  using assms
  by (simp add: extract_image_info_def extract_images_nth_state image_record_eq
      generate_decorative build_role role_name_decorative extract_images_calls)

theorem decorative_never_generated_witness:
  "0 < length (find_all ''img'' mixed_page) \<and>
   is_decorative (determine_image_role (element (find_all ''img'' mixed_page ! 0))) \<and>
   role (fst (extract_image_info flaky_client mixed_page 0) ! 0) = ''decorative'' \<and>
   suggested_alt (fst (extract_image_info flaky_client mixed_page 0) ! 0) = [] \<and>
   snd (image_record flaky_client (find_all ''img'' mixed_page ! 0) 0) = 0 \<and>
   length (snd (snd (extract_image_info (logging flaky_client) mixed_page (0, [])))) = 1"
proof -
  have a: "0 < length (find_all ''img'' mixed_page)"
    by (simp add: mixed_page_def eval_simps)
  have d: "is_decorative (determine_image_role (element (find_all ''img'' mixed_page ! 0)))"
    by (simp add: mixed_page_def determine_flags check_decorative_def eval_simps)
  have n: "length (filter (\<lambda>img. \<not> is_decorative (determine_image_role (element img)))
             (find_all ''img'' mixed_page)) = 1"
    by (simp add: mixed_page_def determine_flags check_decorative_def eval_simps)
  from decorative_never_generated [OF a d, of flaky_client 0 0] a d n
  show ?thesis by simp
qed

text \<open>
  C9. When the client raises for an image, the record of that image gets the text
  \<open>Error generating alt text: \<close> followed by the message, and the batch goes on:
  there is one record for each image of the document, with the source and the role
  of its image.
\<close>

theorem generation_failure_contained:
  assumes "i < length (find_all ''img'' soup)"
    and "\<not> is_decorative (determine_image_role (element (find_all ''img'' soup ! i)))"
    and "fst (create (snd (extract_images create (take i (find_all ''img'' soup)) s))
                (image_context_info (find_all ''img'' soup ! i))) = Raises e"
  shows
    "suggested_alt (fst (extract_image_info create soup s) ! i) = error_prefix @ e \<and>
     length (fst (extract_image_info create soup s)) = length (find_all ''img'' soup) \<and>
     (\<forall>j < length (find_all ''img'' soup).
        src (fst (extract_image_info create soup s) ! j) =
          get_default (fst (element (find_all ''img'' soup ! j))) ''src'' [] \<and>
        role (fst (extract_image_info create soup s) ! j) =
          role_name (determine_image_role (element (find_all ''img'' soup ! j))))"
  using assms
  by (simp add: extract_image_info_def extract_images_nth_state image_record_eq
      generate_raises image_context_info_def extract_images_length build_role build_src)

theorem generation_failure_contained_witness:
  "0 < length (find_all ''img'' two_photos_page) \<and>
   \<not> is_decorative (determine_image_role (element (find_all ''img'' two_photos_page ! 0))) \<and>
   fst (flaky_client (snd (extract_images flaky_client (take 0 (find_all ''img'' two_photos_page)) 0))
          (image_context_info (find_all ''img'' two_photos_page ! 0))) = Raises ''timeout'' \<and>
   suggested_alt (fst (extract_image_info flaky_client two_photos_page 0) ! 0) =
     ''Error generating alt text: timeout'' \<and>
   length (fst (extract_image_info flaky_client two_photos_page 0)) = 2 \<and>
   src (fst (extract_image_info flaky_client two_photos_page 0) ! 1) = ''b.png'' \<and>
   suggested_alt (fst (extract_image_info flaky_client two_photos_page 0) ! 1) = ''A photo''"
proof -
  have a: "0 < length (find_all ''img'' two_photos_page)"
    by (simp add: two_photos_page_def eval_simps)
  have d: "\<not> is_decorative (determine_image_role (element (find_all ''img'' two_photos_page ! 0)))"
    by (simp add: two_photos_page_def determine_flags check_decorative_def eval_simps)
  have r: "fst (flaky_client
                 (snd (extract_images flaky_client (take 0 (find_all ''img'' two_photos_page)) 0))
                 (image_context_info (find_all ''img'' two_photos_page ! 0))) = Raises ''timeout''"
    by (simp add: flaky_client_def)
  have n: "length (find_all ''img'' two_photos_page) = 2"
    by (simp add: two_photos_page_def eval_simps)
  have s: "src (fst (extract_image_info flaky_client two_photos_page 0) ! 1) = ''b.png''"
    "suggested_alt (fst (extract_image_info flaky_client two_photos_page 0) ! 1) = ''A photo''"
    by code_simp+
  from generation_failure_contained [of 0 two_photos_page flaky_client 0 "''timeout''", OF a d r]
    a d r n s
  show ?thesis by (simp add: error_prefix_def)
qed

section \<open>Captions\<close>

lemma strip_last: "strip s \<noteq> [] \<Longrightarrow> \<not> isspace (last (strip s))"
proof -
  assume "strip s \<noteq> []"
  then have ne: "dropWhile isspace (rev (dropWhile isspace s)) \<noteq> []"
    by (simp add: strip_def)
  then have "\<not> isspace (hd (dropWhile isspace (rev (dropWhile isspace s))))"
    by (rule hd_dropWhile)
  with ne show ?thesis
    by (simp add: strip_def last_rev)
qed

lemma in_concat: "y \<in> set xs \<Longrightarrow> c \<in> set y \<Longrightarrow> c \<in> set (concat xs)"
  by auto

lemma get_text_strip_nonspace:
  assumes "get_text_strip t \<noteq> []"
  shows "\<exists>c\<in>set (get_text_strip t). \<not> isspace c"
proof -
  let ?parts = "filter (\<lambda>s. s \<noteq> []) (map strip (concat (map text_of (descendants t))))"
  from assms obtain y where y: "y \<in> set ?parts"
    by (auto simp add: get_text_strip_def)
  then have ne: "y \<noteq> []" by simp
  from y obtain s where "y = strip s" by auto
  with ne strip_last have "\<not> isspace (last y)" by blast
  moreover from ne have "last y \<in> set y" by simp
  with y have "last y \<in> set (concat ?parts)" by (rule in_concat)
  then have "last y \<in> set (get_text_strip t)" by (simp add: get_text_strip_def)
  ultimately show ?thesis by blast
qed

lemma strip_get_text_strip: "strip (get_text_strip t) = [] \<longleftrightarrow> get_text_strip t = []"
  using get_text_strip_nonspace [of t] by (auto simp add: strip_empty_iff)

lemma strip_caption_text:
  "strip (caption_text (determine_image_role e)) = [] \<longleftrightarrow>
   caption_text (determine_image_role e) = []"
  by (simp add: determine_caption strip_get_text_strip split: option.splits)

lemma find_parent_SomeD:
  "find_parent nm e = Some p \<Longrightarrow> p \<in> set (snd e) \<and> tag_name p = Some nm"
  by (auto simp add: find_parent_def find_Some_iff)

lemma tag_find_SomeD:
  "tag_find nm t = Some d \<Longrightarrow> d \<in> set (descendants t) \<and> tag_name d = Some nm"
  by (auto simp add: tag_find_def find_Some_iff)

text \<open>
  C5, as the code has it. For an image that is not decorative, \<open>has_caption\<close> is set
  (and a caption text stored) only when a \<open>figure\<close> encloses the image and has a
  \<open>figcaption\<close> below it, whatever the text of the \<open>figcaption\<close> is: it is set iff
  \<open>find_parent('figure')\<close>, the nearest enclosing \<open>figure\<close>, has a \<open>figcaption\<close>
  below it, and the text stored is \<open>get_text(strip=True)\<close> of the first such
  \<open>figcaption\<close>, which may be empty. Without \<open>has_caption\<close> the \<open>caption_text\<close> is
  empty. The key \<open>caption\<close> of the record is there iff \<open>caption_text\<close> is not empty.
\<close>

theorem caption_lookup:
  assumes "\<not> is_decorative (determine_image_role (element img))"
  shows
    "let ri = determine_image_role (element img) in
       (has_caption ri \<longrightarrow>
          (\<exists>fig\<in>set (snd (element img)). tag_name fig = Some ''figure'' \<and>
             (\<exists>cap\<in>set (descendants fig). tag_name cap = Some ''figcaption''))) \<and>
       (has_caption ri \<longleftrightarrow>
          (\<exists>fig cap. find_parent ''figure'' (element img) = Some fig \<and>
                     tag_find ''figcaption'' fig = Some cap)) \<and>
       (\<forall>fig cap. find_parent ''figure'' (element img) = Some fig \<and>
                  tag_find ''figcaption'' fig = Some cap \<longrightarrow>
                  caption_text ri = get_text_strip cap) \<and>
       (\<not> has_caption ri \<longrightarrow> caption_text ri = []) \<and>
       caption (build_image_data img ri) =
         (if caption_text ri = [] then None else Some (caption_text ri))"
proof -
  let ?ri = "determine_image_role (element img)"
  from assms have nd: "\<not> check_decorative (element img)"
    by (simp add: determine_flags)
  have near: "has_caption ?ri \<longleftrightarrow>
      (\<exists>fig cap. find_parent ''figure'' (element img) = Some fig \<and>
                 tag_find ''figcaption'' fig = Some cap)"
    using nd by (simp add: determine_caption)
  have some: "has_caption ?ri \<longrightarrow>
      (\<exists>fig\<in>set (snd (element img)). tag_name fig = Some ''figure'' \<and>
         (\<exists>cap\<in>set (descendants fig). tag_name cap = Some ''figcaption''))"
    unfolding near using find_parent_SomeD tag_find_SomeD by blast
  have stored: "\<forall>fig cap. find_parent ''figure'' (element img) = Some fig \<and>
                  tag_find ''figcaption'' fig = Some cap \<longrightarrow>
                  caption_text ?ri = get_text_strip cap"
    using nd by (simp add: determine_caption)
  have none: "\<not> has_caption ?ri \<longrightarrow> caption_text ?ri = []"
    using nd by (auto simp add: determine_caption split: option.splits)
  have key: "caption (build_image_data img ?ri) =
      (if caption_text ?ri = [] then None else Some (caption_text ?ri))"
    by (simp add: build_caption strip_caption_text)
  from some near stored none key show ?thesis
    unfolding Let_def by blast
qed

theorem caption_lookup_witness:
  "\<not> is_decorative (determine_image_role (element (nth_img full_page 0))) \<and>
   has_caption (determine_image_role (element (nth_img full_page 0))) \<and>
   caption_text (determine_image_role (element (nth_img full_page 0))) = ''Tom, asleep'' \<and>
   caption (build_image_data (nth_img full_page 0)
              (determine_image_role (element (nth_img full_page 0)))) = Some ''Tom, asleep''"
proof -
  have d: "\<not> is_decorative (determine_image_role (element (nth_img full_page 0)))"
    by (simp add: full_page_def determine_flags check_decorative_def eval_simps)
  have c: "caption_text (determine_image_role (element (nth_img full_page 0))) = ''Tom, asleep''"
    by (simp add: full_page_def determine_caption check_decorative_def eval_simps)
  have h: "has_caption (determine_image_role (element (nth_img full_page 0)))"
    by (simp add: full_page_def determine_caption check_decorative_def eval_simps)
  from caption_lookup [OF d] d c h show ?thesis
    by (simp add: Let_def)
qed

text \<open>
  A \<open>figcaption\<close> that holds only whitespace: \<open>has_caption\<close> is set although the
  trimmed text of the \<open>figcaption\<close> is empty, and \<open>caption_text\<close> is empty although
  \<open>has_caption\<close> is set.
\<close>

theorem caption_counterexample:
  "\<not> is_decorative (determine_image_role (element (nth_img empty_caption_page 0))) \<and>
   has_caption (determine_image_role (element (nth_img empty_caption_page 0))) \<and>
   find_parent ''figure'' (element (nth_img empty_caption_page 0)) =
     Some (Tag ''figure'' []
        [Tag ''img'' [(''src'', ''cat.png''), (''alt'', ''A cat'')] [],
         Tag ''figcaption'' [] [NavigableString ''  '']]) \<and>
   tag_find ''figcaption'' (Tag ''figure'' []
        [Tag ''img'' [(''src'', ''cat.png''), (''alt'', ''A cat'')] [],
         Tag ''figcaption'' [] [NavigableString ''  '']]) =
     Some (Tag ''figcaption'' [] [NavigableString ''  '']) \<and>
   strip (get_text_strip (Tag ''figcaption'' [] [NavigableString ''  ''])) = [] \<and>
   caption_text (determine_image_role (element (nth_img empty_caption_page 0))) = []"
  by (simp add: empty_caption_page_def determine_flags determine_caption check_decorative_def
      eval_simps)

section \<open>The walk over the surrounding text\<close>

lemma strings_truthy: "c \<in> set (strings es) \<Longrightarrow> truthy (content c)"
  by (auto simp add: strings_def content_def split: option.splits)

lemma walk_previous_take:
  "\<exists>n. walk_previous B cs acc =
         rev (take n (map (\<lambda>c. strip (content c)) (filter is_valid_text cs))) @ acc"
proof (induction cs arbitrary: acc)
  case Nil
  then show ?case by simp
next
  case (Cons c cs)
  show ?case
  proof (cases "truthy (content c) \<and> int (length (join '' '' acc)) < B")
    case True
    show ?thesis
    proof (cases "is_valid_text c")
      case v: True
      from Cons.IH [of "strip (content c) # acc"] obtain n where
        "walk_previous B cs (strip (content c) # acc) =
           rev (take n (map (\<lambda>c. strip (content c)) (filter is_valid_text cs)))
             @ strip (content c) # acc" by blast
      with True v have "walk_previous B (c # cs) acc =
           rev (take (Suc n) (map (\<lambda>c. strip (content c)) (filter is_valid_text (c # cs)))) @ acc"
        by simp
      then show ?thesis by blast
    next
      case v: False
      from Cons.IH [of acc] True v show ?thesis by simp
    qed
  next
    case False
    then have "walk_previous B (c # cs) acc =
        rev (take 0 (map (\<lambda>c. strip (content c)) (filter is_valid_text (c # cs)))) @ acc"
      by auto
    then show ?thesis by blast
  qed
qed

lemma walk_next_take:
  "\<exists>n. walk_next B cs acc =
         acc @ take n (map (\<lambda>c. strip (content c)) (filter is_valid_text cs))"
proof (induction cs arbitrary: acc)
  case Nil
  then show ?case by simp
next
  case (Cons c cs)
  show ?case
  proof (cases "truthy (content c) \<and> int (length (join '' '' acc)) < B")
    case True
    show ?thesis
    proof (cases "is_valid_text c")
      case v: True
      from Cons.IH [of "acc @ [strip (content c)]"] obtain n where
        "walk_next B cs (acc @ [strip (content c)]) =
           (acc @ [strip (content c)])
             @ take n (map (\<lambda>c. strip (content c)) (filter is_valid_text cs))" by blast
      with True v have "walk_next B (c # cs) acc =
           acc @ take (Suc n) (map (\<lambda>c. strip (content c)) (filter is_valid_text (c # cs)))"
        by simp
      then show ?thesis by blast
    next
      case v: False
      from Cons.IH [of acc] True v show ?thesis by simp
    qed
  next
    case False
    then have "walk_next B (c # cs) acc =
        acc @ take 0 (map (\<lambda>c. strip (content c)) (filter is_valid_text (c # cs)))"
      by auto
    then show ?thesis by blast
  qed
qed

lemma walk_previous_result:
  assumes "\<forall>c\<in>set cs. content c \<noteq> []"
  shows "B \<le> int (length (join '' '' (walk_previous B cs acc))) \<or>
         walk_previous B cs acc = rev (map (\<lambda>c. strip (content c)) (filter is_valid_text cs)) @ acc"
  using assms
proof (induction cs arbitrary: acc)
  case Nil
  then show ?case by simp
next
  case (Cons c cs)
  show ?case
  proof (cases "int (length (join '' '' acc)) < B")
    case True
    let ?acc = "if is_valid_text c then strip (content c) # acc else acc"
    from Cons.prems have "\<forall>c\<in>set cs. content c \<noteq> []" by simp
    from Cons.IH [OF this, of ?acc] True Cons.prems show ?thesis
      by (auto simp add: truthy_def)
  next
    case False
    then show ?thesis by simp
  qed
qed

lemma walk_next_result:
  assumes "\<forall>c\<in>set cs. content c \<noteq> []"
  shows "B \<le> int (length (join '' '' (walk_next B cs acc))) \<or>
         walk_next B cs acc = acc @ map (\<lambda>c. strip (content c)) (filter is_valid_text cs)"
  using assms
proof (induction cs arbitrary: acc)
  case Nil
  then show ?case by simp
next
  case (Cons c cs)
  show ?case
  proof (cases "int (length (join '' '' acc)) < B")
    case True
    let ?acc = "if is_valid_text c then acc @ [strip (content c)] else acc"
    from Cons.prems have "\<forall>c\<in>set cs. content c \<noteq> []" by simp
    from Cons.IH [OF this, of ?acc] True Cons.prems show ?thesis
      by (auto simp add: truthy_def)
  next
    case False
    then show ?thesis by simp
  qed
qed

lemma walk_previous_overshoot:
  "walk_previous B cs acc = acc \<or>
   (\<exists>t rest. walk_previous B cs acc = t # rest \<and> int (length (join '' '' rest)) < B)"
proof (induction cs arbitrary: acc)
  case Nil
  then show ?case by simp
next
  case (Cons c cs)
  show ?case
  proof (cases "truthy (content c) \<and> int (length (join '' '' acc)) < B")
    case True
    show ?thesis
    proof (cases "is_valid_text c")
      case v: True
      from Cons.IH [of "strip (content c) # acc"] True v show ?thesis by auto
    next
      case v: False
      from Cons.IH [of acc] True v show ?thesis by auto
    qed
  next
    case False
    then show ?thesis by auto
  qed
qed

lemma walk_next_overshoot:
  "walk_next B cs acc = acc \<or>
   (\<exists>t rest. walk_next B cs acc = rest @ [t] \<and> int (length (join '' '' rest)) < B)"
proof (induction cs arbitrary: acc)
  case Nil
  then show ?case by simp
next
  case (Cons c cs)
  show ?case
  proof (cases "truthy (content c) \<and> int (length (join '' '' acc)) < B")
    case True
    show ?thesis
    proof (cases "is_valid_text c")
      case v: True
      from Cons.IH [of "acc @ [strip (content c)]"] True v show ?thesis by auto
    next
      case v: False
      from Cons.IH [of acc] True v show ?thesis by auto
    qed
  next
    case False
    then show ?thesis by auto
  qed
qed

lemma length_join: "sum_list (map length xs) \<le> length (join sep xs)"
  by (induction sep xs rule: join.induct) simp_all

lemma sum_valid_lengths:
  "40 * length (filter (\<lambda>e. is_valid_text e \<and> length (strip (content e)) = 40) cs)
     \<le> sum_list (map length (map (\<lambda>c. strip (content c)) (filter is_valid_text cs)))"
  by (induction cs) auto

lemma three_fragments_previous:
  assumes "\<forall>c\<in>set cs. content c \<noteq> []"
    and "3 \<le> length (filter (\<lambda>e. is_valid_text e \<and> length (strip (content e)) = 40) cs)"
  shows "100 \<le> length (join '' '' (walk_previous 100 cs []))"
proof -
  from walk_previous_result [OF assms(1), of 100 "[]"]
  consider "100 \<le> int (length (join '' '' (walk_previous 100 cs [])))"
    | "walk_previous 100 cs [] = rev (map (\<lambda>c. strip (content c)) (filter is_valid_text cs))"
    by auto
  then show ?thesis
  proof cases
    case 1
    then show ?thesis by simp
  next
    case 2
    have "120 \<le> sum_list (map length (map (\<lambda>c. strip (content c)) (filter is_valid_text cs)))"
      using sum_valid_lengths [of cs] assms(2) by simp
    also have "\<dots> = sum_list (map length (walk_previous 100 cs []))"
      by (simp add: 2 rev_map [symmetric] sum_list_rev del: map_map)
    also have "\<dots> \<le> length (join '' '' (walk_previous 100 cs []))"
      by (rule length_join)
    finally show ?thesis by simp
  qed
qed

lemma three_fragments_next:
  assumes "\<forall>c\<in>set cs. content c \<noteq> []"
    and "3 \<le> length (filter (\<lambda>e. is_valid_text e \<and> length (strip (content e)) = 40) cs)"
  shows "100 \<le> length (join '' '' (walk_next 100 cs []))"
proof -
  from walk_next_result [OF assms(1), of 100 "[]"]
  consider "100 \<le> int (length (join '' '' (walk_next 100 cs [])))"
    | "walk_next 100 cs [] = map (\<lambda>c. strip (content c)) (filter is_valid_text cs)"
    by auto
  then show ?thesis
  proof cases
    case 1
    then show ?thesis by simp
  next
    case 2
    have "120 \<le> sum_list (map length (map (\<lambda>c. strip (content c)) (filter is_valid_text cs)))"
      using sum_valid_lengths [of cs] assms(2) by simp
    also have "\<dots> = sum_list (map length (walk_next 100 cs []))"
      by (simp add: 2)
    also have "\<dots> \<le> length (join '' '' (walk_next 100 cs []))"
      by (rule length_join)
    finally show ?thesis by simp
  qed
qed

lemma strings_content: "\<forall>c\<in>set (strings es). content c \<noteq> []"
  using strings_truthy by (auto simp add: truthy_def)

text \<open>
  C3. On each side of the image the result is the trimmed qualifying fragments nearest
  to the image, in document order, joined by single spaces. The walk stops only when
  the joined length has reached the budget \<open>B\<close> or no string is left, so that a result
  shorter than \<open>B\<close> holds every qualifying fragment of its side. The budget is tested
  after each addition: without the fragment added last the result is shorter than
  \<open>B\<close>, so it exceeds \<open>B\<close> by one fragment at most. With \<open>B = 100\<close> and at least three
  qualifying fragments of forty characters on a side, the result of that side has a
  length of at least 100.
\<close>

theorem context_budget:
  "(\<exists>ts. before_text (get_surrounding_text img B) = join '' '' ts \<and>
      (\<exists>n. ts = rev (take n (map (\<lambda>c. strip (content c))
                        (filter is_valid_text (strings (previous_elements img)))))) \<and>
      (B \<le> int (length (join '' '' ts)) \<or>
       ts = rev (map (\<lambda>c. strip (content c))
                  (filter is_valid_text (strings (previous_elements img))))) \<and>
      (ts = [] \<or> int (length (join '' '' (tl ts))) < B)) \<and>
   (\<exists>ts. after_text (get_surrounding_text img B) = join '' '' ts \<and>
      (\<exists>n. ts = take n (map (\<lambda>c. strip (content c))
                        (filter is_valid_text (strings (next_elements img))))) \<and>
      (B \<le> int (length (join '' '' ts)) \<or>
       ts = map (\<lambda>c. strip (content c))
              (filter is_valid_text (strings (next_elements img)))) \<and>
      (ts = [] \<or> int (length (join '' '' (butlast ts))) < B)) \<and>
   (B = 100 \<and>
    3 \<le> length (filter (\<lambda>e. is_valid_text e \<and> length (strip (content e)) = 40)
                  (strings (previous_elements img))) \<longrightarrow>
      100 \<le> length (before_text (get_surrounding_text img B))) \<and>
   (B = 100 \<and>
    3 \<le> length (filter (\<lambda>e. is_valid_text e \<and> length (strip (content e)) = 40)
                  (strings (next_elements img))) \<longrightarrow>
      100 \<le> length (after_text (get_surrounding_text img B)))"
proof -
  let ?p = "strings (previous_elements img)" and ?n = "strings (next_elements img)"
  define wp where "wp = walk_previous B ?p []"
  define wn where "wn = walk_next B ?n []"
  have p0: "before_text (get_surrounding_text img B) = join '' '' wp"
    and n0: "after_text (get_surrounding_text img B) = join '' '' wn"
    by (simp_all add: get_surrounding_text_def wp_def wn_def)
  have p1: "\<exists>n. wp = rev (take n (map (\<lambda>c. strip (content c)) (filter is_valid_text ?p)))"
    using walk_previous_take [of B ?p "[]"] by (simp add: wp_def)
  have n1: "\<exists>n. wn = take n (map (\<lambda>c. strip (content c)) (filter is_valid_text ?n))"
    using walk_next_take [of B ?n "[]"] by (simp add: wn_def)
  have p2: "B \<le> int (length (join '' '' wp)) \<or>
      wp = rev (map (\<lambda>c. strip (content c)) (filter is_valid_text ?p))"
    using walk_previous_result [OF strings_content, of B "previous_elements img" "[]"]
    by (simp add: wp_def)
  have n2: "B \<le> int (length (join '' '' wn)) \<or>
      wn = map (\<lambda>c. strip (content c)) (filter is_valid_text ?n)"
    using walk_next_result [OF strings_content, of B "next_elements img" "[]"]
    by (simp add: wn_def)
  have p3: "wp = [] \<or> int (length (join '' '' (tl wp))) < B"
    using walk_previous_overshoot [of B ?p "[]"] by (auto simp add: wp_def)
  have n3: "wn = [] \<or> int (length (join '' '' (butlast wn))) < B"
    using walk_next_overshoot [of B ?n "[]"] by (auto simp add: wn_def)
  from p0 p1 p2 p3 have before:
    "\<exists>ts. before_text (get_surrounding_text img B) = join '' '' ts \<and>
      (\<exists>n. ts = rev (take n (map (\<lambda>c. strip (content c)) (filter is_valid_text ?p)))) \<and>
      (B \<le> int (length (join '' '' ts)) \<or>
       ts = rev (map (\<lambda>c. strip (content c)) (filter is_valid_text ?p))) \<and>
      (ts = [] \<or> int (length (join '' '' (tl ts))) < B)"
    by blast
  from n0 n1 n2 n3 have after:
    "\<exists>ts. after_text (get_surrounding_text img B) = join '' '' ts \<and>
      (\<exists>n. ts = take n (map (\<lambda>c. strip (content c)) (filter is_valid_text ?n))) \<and>
      (B \<le> int (length (join '' '' ts)) \<or>
       ts = map (\<lambda>c. strip (content c)) (filter is_valid_text ?n)) \<and>
      (ts = [] \<or> int (length (join '' '' (butlast ts))) < B)"
    by blast
  have three_before: "B = 100 \<and>
    3 \<le> length (filter (\<lambda>e. is_valid_text e \<and> length (strip (content e)) = 40) ?p) \<longrightarrow>
      100 \<le> length (before_text (get_surrounding_text img B))"
    using three_fragments_previous [OF strings_content, of "previous_elements img"]
    by (simp add: get_surrounding_text_def)
  have three_after: "B = 100 \<and>
    3 \<le> length (filter (\<lambda>e. is_valid_text e \<and> length (strip (content e)) = 40) ?n) \<longrightarrow>
      100 \<le> length (after_text (get_surrounding_text img B))"
    using three_fragments_next [OF strings_content, of "next_elements img"]
    by (simp add: get_surrounding_text_def)
  from before after three_before three_after show ?thesis by blast
qed

theorem context_budget_witness:
  "3 \<le> length (filter (\<lambda>e. is_valid_text e \<and> length (strip (content e)) = 40)
                  (strings (previous_elements (nth_img three_fragments_page 0)))) \<and>
   before_text (get_surrounding_text (nth_img three_fragments_page 0) 100) =
     fragment1 @ '' '' @ fragment2 @ '' '' @ fragment3 \<and>
   length (before_text (get_surrounding_text (nth_img three_fragments_page 0) 100)) = 122 \<and>
   length (join '' '' [fragment2, fragment3]) = 81 \<and>
   after_text (get_surrounding_text (nth_img three_fragments_page 0) 100) = [] \<and>
   before_text (get_surrounding_text (nth_img empty_comment_page 0) 100) =
     fragment1 @ '' '' @ fragment2 @ '' '' @ fragment3"
proof -
  have h: "3 \<le> length (filter (\<lambda>e. is_valid_text e \<and> length (strip (content e)) = 40)
                  (strings (previous_elements (nth_img three_fragments_page 0))))"
    by code_simp
  have b: "before_text (get_surrounding_text (nth_img three_fragments_page 0) 100) =
     fragment1 @ '' '' @ fragment2 @ '' '' @ fragment3"
    by code_simp
  have l: "length (fragment1 @ '' '' @ fragment2 @ '' '' @ fragment3) = 122"
    "length (join '' '' [fragment2, fragment3]) = 81"
    by code_simp+
  have a: "after_text (get_surrounding_text (nth_img three_fragments_page 0) 100) = []"
    by code_simp
  have e: "before_text (get_surrounding_text (nth_img empty_comment_page 0) 100) =
     fragment1 @ '' '' @ fragment2 @ '' '' @ fragment3"
    by code_simp
  from context_budget [of "nth_img three_fragments_page 0" 100] h b l a e
  show ?thesis by simp
qed

end
